theory Spec2Isabelle
  imports Complex_Main "HOL-Library.Sublist"
begin

section \<open>Video upscaler page: the job lifecycle of \<open>src/app/page.tsx\<close>\<close>

text \<open>
  The page component \<open>HomePage\<close> keeps its state in React hooks, talks to two outside
  collaborators (the ffmpeg.wasm engine and the browser's object-URL store) and
  translates the user's choices into an ffmpeg argument list. The component's state is
  a record, each handler is a function on that record, and every call to a collaborator
  is written to a log that is part of the state, so that the order of the calls can be
  stated and proved.
\<close>

subsection \<open>Strings of numbers\<close>

text \<open>
  JavaScript's \<open>String(n)\<close> on an integer: the decimal digits, with a leading minus sign
  for a negative number.
\<close>

definition digit_char :: "nat \<Rightarrow> char" where
  "digit_char d = ''0123456789'' ! d"

function show_nat :: "nat \<Rightarrow> string" where
  "show_nat n = (if n < 10 then [digit_char n] else show_nat (n div 10) @ [digit_char (n mod 10)])"
  by pat_completeness auto
termination
  by (relation "measure (\<lambda>n. n)") auto

declare show_nat.simps [simp del]

definition String_of :: "int \<Rightarrow> string" where
  "String_of i = (if i < 0 then ''-'' @ show_nat (nat (- i)) else show_nat (nat i))"

subsection \<open>The scale presets and the scale filter (lines 7, 80--98)\<close>

text \<open>
  \<open>type ScalePreset = "2x" | "3x" | "4x" | "720p" | "1080p" | "4k"\<close>. The \<open>default\<close>
  branch of the switch in \<open>buildScaleFilter\<close> cannot be reached by a value of this
  type, so the datatype has the six cases only.
\<close>

datatype ScalePreset = P2x | P3x | P4x | P720p | P1080p | P4k

text \<open>
  \<open>buildScaleFilter\<close> is a closure over the state variables \<open>algo\<close> and \<open>scale\<close>; here
  they are its first two arguments. The parameters \<open>w\<close> and \<open>h\<close> are those of the
  source: the body never reads them.
\<close>

definition buildScaleFilter :: "string \<Rightarrow> ScalePreset \<Rightarrow> nat \<Rightarrow> nat \<Rightarrow> string" where
  "buildScaleFilter algo scale w h =
     (let flags = ''flags='' @ algo in
      case scale of
        P2x \<Rightarrow> ''scale=iw*2:ih*2:'' @ flags
      | P3x \<Rightarrow> ''scale=iw*3:ih*3:'' @ flags
      | P4x \<Rightarrow> ''scale=iw*4:ih*4:'' @ flags
      | P720p \<Rightarrow> ''scale='trunc(oh*a/2)*2':720:'' @ flags
      | P1080p \<Rightarrow> ''scale='trunc(oh*a/2)*2':1080:'' @ flags
      | P4k \<Rightarrow> ''scale=3840:2160:'' @ flags)"

text \<open>The argument list of lines 124--133.\<close>

definition buildArgs :: "string \<Rightarrow> string \<Rightarrow> int \<Rightarrow> string list" where
  "buildArgs scaleFilter preset crf =
     [''-i'', ''input'',
      ''-vf'', scaleFilter,
      ''-c:v'', ''libx264'',
      ''-preset'', preset,
      ''-crf'', String_of crf,
      ''-c:a'', ''copy'',
      ''-movflags'', ''+faststart'',
      ''output.mp4'']"

subsection \<open>What the engine makes of a scale expression\<close>

text \<open>
  The width and height given to ffmpeg's \<open>scale\<close> filter are expressions that the engine
  evaluates for each input; \<open>iw\<close> and \<open>ih\<close> are the input's width and height. The
  engine is not part of this repository. Its expression language is modelled here only
  where its arithmetic is that of the integers: a number, \<open>iw\<close>, \<open>ih\<close> and products
  of these, as the multiplicative presets and the \<open>4k\<close> preset use them. (The engine
  computes in doubles, which are exact on these values: a frame's dimensions are C
  ints.) A width or height that evaluates to 0 stands for the input's. The width
  expression of the fixed-height presets divides in doubles; it is not given a meaning
  here. \<open>show_expr\<close> is the concrete syntax of an expression, so the theorems below
  can say which expression a filter string denotes.
\<close>

datatype expr = Num nat | Iw | Ih | Mul expr expr

fun atomic :: "expr \<Rightarrow> bool" where
  "atomic (Mul x y) = False"
| "atomic e = True"

fun show_expr :: "expr \<Rightarrow> string" where
  "show_expr (Num n) = show_nat n"
| "show_expr Iw = ''iw''"
| "show_expr Ih = ''ih''"
| "show_expr (Mul x y) =
     show_expr x @ ''*'' @ (if atomic y then show_expr y else ''('' @ show_expr y @ '')'')"


fun eval_expr :: "nat \<Rightarrow> nat \<Rightarrow> expr \<Rightarrow> nat" where
  "eval_expr iw ih (Num n) = n"
| "eval_expr iw ih Iw = iw"
| "eval_expr iw ih Ih = ih"
| "eval_expr iw ih (Mul x y) = eval_expr iw ih x * eval_expr iw ih y"

text \<open>
  The output size \<open>(width, height)\<close> of \<open>scale=W:H\<close> on an input of \<open>iw\<close> by \<open>ih\<close>
  pixels.
\<close>

definition scale_target :: "expr \<Rightarrow> expr \<Rightarrow> nat \<Rightarrow> nat \<Rightarrow> nat \<times> nat" where
  "scale_target W H iw ih =
     (let ow = eval_expr iw ih W;
          oh = eval_expr iw ih H
      in (if ow = 0 then iw else ow, if oh = 0 then ih else oh))"

subsection \<open>The outside world: object URLs and the engine\<close>

text \<open>
  \<open>URL.createObjectURL\<close> hands out a fresh handle on every call and
  \<open>URL.revokeObjectURL\<close> releases one; revoking a handle that is not live does
  nothing. Handles are numbered in the order of their creation. The page creates
  handles for two kinds of object: the selected \<open>File\<close> (the input display handle,
  line 76) and the \<open>Blob\<close> of the produced video (the output handle, line 140).
\<close>

type_synonym url = nat

datatype url_kind = InputUrl | OutputUrl

datatype url_op = Create url_kind url | Revoke url

text \<open>The handles of one kind that are live after a sequence of calls, oldest call first.\<close>

fun step_live :: "url_kind \<Rightarrow> url set \<Rightarrow> url_op \<Rightarrow> url set" where
  "step_live k L (Create k' u) = (if k' = k then insert u L else L)"
| "step_live k L (Revoke u) = L - {u}"

definition live :: "url_kind \<Rightarrow> url_op list \<Rightarrow> url set" where
  "live k ops = foldl (step_live k) {} ops"

definition at_most_one :: "url set \<Rightarrow> bool" where
  "at_most_one L = (\<forall>x\<in>L. \<forall>y\<in>L. x = y)"

text \<open>
  At no moment of a sequence of calls were two handles of kind \<open>k\<close> live: not before
  the first call, and not after any of the calls. \<open>L\<close> is the set of handles live at
  the start.
\<close>

fun never_two_from :: "url_kind \<Rightarrow> url set \<Rightarrow> url_op list \<Rightarrow> bool" where
  "never_two_from k L [] = at_most_one L"
| "never_two_from k L (x # xs) = (at_most_one L \<and> never_two_from k (step_live k L x) xs)"

definition never_two :: "url_kind \<Rightarrow> url_op list \<Rightarrow> bool" where
  "never_two k ops = never_two_from k {} ops"

text \<open>
  A value thrown by the engine or by the page itself. The handler of line 145 reads
  \<open>err?.message\<close>, which is absent for a thrown value that has none.
\<close>

datatype exn = Error (message: "string option")

type_synonym bytes = "nat list"

datatype engine_call = WriteFile string bytes | Exec "string list" | ReadFile string

datatype engine_event = ProgressEv real | LogEv string

text \<open>
  What the collaborators do during one run, in the order the run awaits them:
  \<open>fetchFile(file)\<close> resolves to bytes or rejects, \<open>writeFile\<close> resolves or rejects,
  \<open>exec\<close> emits progress and log events and then resolves or rejects (the page does
  not look at the exit status it resolves to), \<open>readFile\<close> resolves to bytes or
  rejects.
\<close>

record engine_script =
  fetchFile_result :: "exn + bytes"
  writeFile_result :: "exn option"
  exec_events :: "engine_event list"
  exec_result :: "exn option"
  readFile_result :: "exn + bytes"

subsection \<open>The component state (lines 13--27)\<close>

record File =
  file_name :: string
  file_size :: nat

text \<open>
  The first twelve fields are the \<open>useState\<close> variables; \<open>ffmpeg\<close> is \<open>True\<close> when the
  engine handle is not \<open>null\<close>. \<open>inputVideo\<close> is \<open>inputVideoRef.current\<close>: the
  \<open>videoWidth\<close> and \<open>videoHeight\<close> of the preview element when there is one.
  \<open>effectUrls\<close> holds the \<open>inputUrl\<close> and \<open>outputUrl\<close> that the cleanup function of
  lines 63--68 closed over when its effect last ran. The last four fields record the
  calls made so far: to the object-URL store, to the engine, and to \<open>setProgress\<close>.
\<close>

record state =
  ffmpeg :: bool
  loadingCore :: bool
  "file" :: "File option"
  inputUrl :: "url option"
  progress :: int
  status :: string
  outputUrl :: "url option"
  scale :: ScalePreset
  algo :: string
  crf :: int
  preset :: string
  processing :: bool
  inputVideo :: "(nat \<times> nat) option"
  effectUrls :: "url option \<times> url option"
  urlLog :: "url_op list"
  nextUrl :: url
  engineCalls :: "engine_call list"
  progressLog :: "int list"

definition initial :: state where
  "initial = \<lparr>ffmpeg = False, loadingCore = False, file = None, inputUrl = None,
     progress = 0, status = [], outputUrl = None, scale = P2x, algo = ''lanczos'',
     crf = 20, preset = ''medium'', processing = False, inputVideo = None,
     effectUrls = (None, None), urlLog = [], nextUrl = 0, engineCalls = [],
     progressLog = []\<rparr>"

definition createObjectURL :: "url_kind \<Rightarrow> state \<Rightarrow> url \<times> state" where
  "createObjectURL k s =
     (nextUrl s, s\<lparr>urlLog := urlLog s @ [Create k (nextUrl s)], nextUrl := Suc (nextUrl s)\<rparr>)"

definition revokeObjectURL :: "url \<Rightarrow> state \<Rightarrow> state" where
  "revokeObjectURL u s = s\<lparr>urlLog := urlLog s @ [Revoke u]\<rparr>"

definition setProgress :: "int \<Rightarrow> state \<Rightarrow> state" where
  "setProgress p s = s\<lparr>progress := p, progressLog := progressLog s @ [p]\<rparr>"

definition call_engine :: "engine_call \<Rightarrow> state \<Rightarrow> state" where
  "call_engine c s = s\<lparr>engineCalls := engineCalls s @ [c]\<rparr>"

subsection \<open>The engine's listeners (lines 37--42)\<close>

text \<open>
  \<open>Math.round\<close> rounds to the nearest integer, a half upwards. The ratio is a real
  number here, where the source has a double.
\<close>

definition Math_round :: "real \<Rightarrow> int" where
  "Math_round x = \<lfloor>x + 1 / 2\<rfloor>"

definition on_progress :: "real \<Rightarrow> state \<Rightarrow> state" where
  "on_progress r s = setProgress (Math_round (r * 100)) s"

definition on_log :: "string \<Rightarrow> state \<Rightarrow> state" where
  "on_log m s = s\<lparr>status := m\<rparr>"

fun deliver :: "state \<Rightarrow> engine_event \<Rightarrow> state" where
  "deliver s (ProgressEv r) = on_progress r s"
| "deliver s (LogEv m) = on_log m s"

fun ratios :: "engine_event list \<Rightarrow> real list" where
  "ratios [] = []"
| "ratios (ProgressEv r # es) = r # ratios es"
| "ratios (LogEv m # es) = ratios es"

subsection \<open>The cleanup effect (lines 63--68)\<close>

text \<open>
  The effect's cleanup revokes the \<open>inputUrl\<close> and the \<open>outputUrl\<close> of the render that
  installed it. React runs it when the component is rendered with a different
  \<open>inputUrl\<close> or \<open>outputUrl\<close> (the effect's dependencies), and on unmount; after a
  change the effect is installed again, with the new values.
\<close>

definition cleanup :: "url option \<times> url option \<Rightarrow> state \<Rightarrow> state" where
  "cleanup deps s =
     (let s1 = (case fst deps of Some u \<Rightarrow> revokeObjectURL u s | None \<Rightarrow> s)
      in (case snd deps of Some u \<Rightarrow> revokeObjectURL u s1 | None \<Rightarrow> s1))"

definition rerender :: "state \<Rightarrow> state" where
  "rerender s =
     (if effectUrls s = (inputUrl s, outputUrl s) then s
      else (cleanup (effectUrls s) s)\<lparr>effectUrls := (inputUrl s, outputUrl s)\<rparr>)"

definition unmount :: "state \<Rightarrow> state" where
  "unmount s = cleanup (effectUrls s) s"

subsection \<open>\<open>handleFile\<close> (lines 70--78)\<close>

definition handleFile :: "File option \<Rightarrow> state \<Rightarrow> state" where
  "handleFile f s =
     (let s1 = s\<lparr>outputUrl := None\<rparr>;
          s2 = setProgress 0 s1;
          s3 = s2\<lparr>status := [], file := f\<rparr>;
          s4 = (case inputUrl s of Some u \<Rightarrow> revokeObjectURL u s3 | None \<Rightarrow> s3)
      in (case f of
            Some x \<Rightarrow> (let (u, s5) = createObjectURL InputUrl s4 in s5\<lparr>inputUrl := Some u\<rparr>)
          | None \<Rightarrow> s4\<lparr>inputUrl := None\<rparr>))"

subsection \<open>\<open>upscale\<close> (lines 100--149)\<close>

definition maxBytes :: nat where
  "maxBytes = 300 * 1024 * 1024"

definition too_large :: exn where
  "too_large = Error (Some ''File too large. Please use a file under 300MB.'')"

text \<open>Line 145: \<open>err?.message || "Upscaling failed"\<close>; an empty message is falsy too.\<close>

definition err_text :: "exn \<Rightarrow> string" where
  "err_text e =
     (case message e of
        Some m \<Rightarrow> (if m = [] then ''Upscaling failed'' else m)
      | None \<Rightarrow> ''Upscaling failed'')"

text \<open>
  The \<open>try\<close> block of lines 106--142: the exception that ended it, if any, and the state
  it left behind.
\<close>

definition try_block :: "engine_script \<Rightarrow> File \<Rightarrow> state \<Rightarrow> exn option \<times> state" where
  "try_block eng f s =
     (if file_size f > maxBytes then (Some too_large, s)
      else
        (let (inW, inH) = (case inputVideo s of
                             Some (vw, vh) \<Rightarrow> (if vw \<noteq> 0 then (vw, vh) else (0, 0))
                           | None \<Rightarrow> (0, 0));
             scaleFilter = buildScaleFilter (algo s) (scale s) inW inH
         in (case fetchFile_result eng of
               Inl e \<Rightarrow> (Some e, s)
             | Inr input \<Rightarrow>
                (let s1 = call_engine (WriteFile ''input'' input) s
                 in (case writeFile_result eng of
                       Some e \<Rightarrow> (Some e, s1)
                     | None \<Rightarrow>
                        (let args = buildArgs scaleFilter (preset s1) (crf s1);
                             s2 = s1\<lparr>status := ''Upscaling...''\<rparr>;
                             s3 = call_engine (Exec args) s2;
                             s4 = foldl deliver s3 (exec_events eng)
                         in (case exec_result eng of
                               Some e \<Rightarrow> (Some e, s4)
                             | None \<Rightarrow>
                                (let s5 = call_engine (ReadFile ''output.mp4'') s4
                                 in (case readFile_result eng of
                                       Inl e \<Rightarrow> (Some e, s5)
                                     | Inr data \<Rightarrow>
                                        (let (u, s6) = createObjectURL OutputUrl s5
                                         in (None, s6\<lparr>outputUrl := Some u,
                                                       status := ''Done''\<rparr>)))))))))))"

definition upscale :: "engine_script \<Rightarrow> state \<Rightarrow> state" where
  "upscale eng s =
     (case file s of
        None \<Rightarrow> s
      | Some f \<Rightarrow>
          (if \<not> ffmpeg s then s
           else
             (let s1 = s\<lparr>processing := True\<rparr>;
                  s2 = setProgress 0 s1;
                  s3 = s2\<lparr>status := ''Preparing...''\<rparr>;
                  (err, s4) = try_block eng f s3;
                  s5 = (case err of Some e \<Rightarrow> s4\<lparr>status := err_text e\<rparr> | None \<Rightarrow> s4)
              in s5\<lparr>processing := False\<rparr>)))"

subsection \<open>The page's controls (lines 151, 174--233)\<close>

definition disabled :: "state \<Rightarrow> bool" where
  "disabled s = (\<not> ffmpeg s \<or> loadingCore s \<or> file s = None \<or> processing s)"

text \<open>
  What the user can do: pick a file (or clear the picker), press the start button,
  change one of the four settings; the preview element reports its dimensions. A
  disabled button delivers no click. A run is taken as one step: the engine's part in
  it comes with the click. After each step React renders the component again.
\<close>

datatype ui_event =
    SelectFile "File option"
  | ClickStart engine_script
  | ChooseScale ScalePreset
  | ChooseAlgo string
  | ChooseCrf int
  | ChoosePreset string
  | VideoSize "(nat \<times> nat) option"

fun perform :: "state \<Rightarrow> ui_event \<Rightarrow> state" where
  "perform s (SelectFile f) = rerender (handleFile f s)"
| "perform s (ClickStart eng) = (if disabled s then s else rerender (upscale eng s))"
| "perform s (ChooseScale v) = s\<lparr>scale := v\<rparr>"
| "perform s (ChooseAlgo v) = s\<lparr>algo := v\<rparr>"
| "perform s (ChooseCrf v) = s\<lparr>crf := v\<rparr>"
| "perform s (ChoosePreset v) = s\<lparr>preset := v\<rparr>"
| "perform s (VideoSize d) = s\<lparr>inputVideo := d\<rparr>"

definition session :: "state \<Rightarrow> ui_event list \<Rightarrow> state" where
  "session s evs = foldl perform s evs"

text \<open>
  The first of the four awaited calls of a run that rejects, with the value it throws.
\<close>

definition first_rejection :: "engine_script \<Rightarrow> exn option" where
  "first_rejection eng =
     (case fetchFile_result eng of
        Inl e \<Rightarrow> Some e
      | Inr b \<Rightarrow>
          (case writeFile_result eng of
             Some e \<Rightarrow> Some e
           | None \<Rightarrow>
               (case exec_result eng of
                  Some e \<Rightarrow> Some e
                | None \<Rightarrow> (case readFile_result eng of Inl e \<Rightarrow> Some e | Inr d \<Rightarrow> None))))"

text \<open>
  A run succeeds when nothing stops it: the engine is loaded, a file of at most
  \<open>maxBytes\<close> is selected and none of the awaited calls rejects.
\<close>

definition succeeds :: "engine_script \<Rightarrow> state \<Rightarrow> bool" where
  "succeeds eng s =
     (ffmpeg s \<and> (case file s of Some f \<Rightarrow> file_size f \<le> maxBytes | None \<Rightarrow> False) \<and>
      first_rejection eng = None)"

text \<open>
  The state the page keeps between steps: every live handle is the one the state
  refers to, the installed cleanup holds the current pair of handles, and the handles
  in the state have been created.
\<close>

definition settled :: "state \<Rightarrow> bool" where
  "settled s =
     (live InputUrl (urlLog s) \<subseteq> set_option (inputUrl s) \<and>
      live OutputUrl (urlLog s) \<subseteq> set_option (outputUrl s) \<and>
      effectUrls s = (inputUrl s, outputUrl s) \<and>
      (\<forall>u\<in>set_option (inputUrl s) \<union> set_option (outputUrl s). u < nextUrl s))"

text \<open>The percentages that \<open>setProgress\<close> was given during a run started in \<open>s\<close>.\<close>

definition shown_during :: "engine_script \<Rightarrow> state \<Rightarrow> int list" where
  "shown_during eng s = drop (length (progressLog s)) (progressLog (upscale eng s))"

subsection \<open>Example inputs\<close>

text \<open>
  Two files, one under and one over the size limit; the state of the page once the
  engine has loaded (\<open>setFfmpeg(instance)\<close>, line 48); and an engine that carries a run
  through, reporting its progress on the way.
\<close>

definition clip :: File where
  "clip = \<lparr>file_name = ''clip.mp4'', file_size = 1048576\<rparr>"

definition huge :: File where
  "huge = \<lparr>file_name = ''huge.mp4'', file_size = 314572801\<rparr>"

definition loaded :: state where
  "loaded = initial\<lparr>ffmpeg := True\<rparr>"

definition smooth :: engine_script where
  "smooth = \<lparr>fetchFile_result = Inr [0, 1, 2], writeFile_result = None,
     exec_events = [ProgressEv (1 / 4), LogEv ''frame=   30'', ProgressEv (1 / 2), ProgressEv 1],
     exec_result = None, readFile_result = Inr [3, 4, 5]\<rparr>"

section \<open>The translator\<close>

lemma show_nat_digit: "n < 10 \<Longrightarrow> show_nat n = [digit_char n]"
  by (simp add: show_nat.simps)

lemma show_nat_step: "10 \<le> n \<Longrightarrow> show_nat n = show_nat (n div 10) @ [digit_char (n mod 10)]"
  by (subst show_nat.simps) simp



lemma show_3840: "show_nat 3840 = ''3840''"
  by (simp add: show_nat_step show_nat_digit digit_char_def)

lemma show_2160: "show_nat 2160 = ''2160''"
  by (simp add: show_nat_step show_nat_digit digit_char_def)

lemma String_of_20: "String_of 20 = ''20''"
  by (simp add: String_of_def show_nat_step show_nat_digit digit_char_def)



text \<open>
  Claim C9: for the preset \<open>4k\<close> the filter is \<open>scale=3840:2160:flags=...\<close>, whatever the
  algorithm and whatever dimensions the builder is given; the two numbers are
  constants of the expression language, so the engine's output is 3840 by 2160 for
  every input size.
\<close>

theorem preset_4k_fixed:
  "buildScaleFilter alg P4k w h = ''scale=3840:2160:flags='' @ alg
   \<and> buildScaleFilter alg P4k w h
       = ''scale='' @ show_expr (Num 3840) @ '':'' @ show_expr (Num 2160) @ '':flags='' @ alg
   \<and> scale_target (Num 3840) (Num 2160) iw ih = (3840, 2160)"
  by (simp add: buildScaleFilter_def show_3840 show_2160 scale_target_def)

text \<open>
  Claim C10: \<open>buildScaleFilter\<close> does not read its two parameters. Two calls that
  differ in the dimensions only return the same string, and for the presets \<open>2x\<close>,
  \<open>3x\<close> and \<open>4x\<close> that string is the relative expression \<open>iw*N:ih*N\<close>, also when
  the dimensions are known.
\<close>

theorem filter_ignores_dimensions:
  "buildScaleFilter alg sc w1 h1 = buildScaleFilter alg sc w2 h2
   \<and> buildScaleFilter alg P2x w1 h1 = ''scale=iw*2:ih*2:flags='' @ alg
   \<and> buildScaleFilter alg P3x w1 h1 = ''scale=iw*3:ih*3:flags='' @ alg
   \<and> buildScaleFilter alg P4x w1 h1 = ''scale=iw*4:ih*4:flags='' @ alg"
  by (simp add: buildScaleFilter_def)

section \<open>The run\<close>

lemmas run_defs = session_def loaded_def initial_def clip_def huge_def smooth_def handleFile_def
  rerender_def cleanup_def upscale_def try_block_def setProgress_def createObjectURL_def
  revokeObjectURL_def call_engine_def disabled_def maxBytes_def on_progress_def on_log_def
  err_text_def too_large_def

text \<open>The engine's listeners touch the progress and the status text only.\<close>

lemma deliver_shape:
  "\<exists>p st pl. deliver s e = s\<lparr>progress := p, status := st, progressLog := progressLog s @ pl\<rparr>"
proof (cases e)
  case (ProgressEv r)
  have "deliver s e = s\<lparr>progress := Math_round (r * 100), status := status s,
      progressLog := progressLog s @ [Math_round (r * 100)]\<rparr>"
    by (simp add: ProgressEv on_progress_def setProgress_def)
  then show ?thesis by blast
next
  case (LogEv m)
  have "deliver s e = s\<lparr>progress := progress s, status := m, progressLog := progressLog s @ []\<rparr>"
    by (simp add: LogEv on_log_def)
  then show ?thesis by blast
qed

lemma events_shape:
  "\<exists>p st pl. foldl deliver s es = s\<lparr>progress := p, status := st, progressLog := progressLog s @ pl\<rparr>"
proof (induction es rule: rev_induct)
  case Nil
  have "foldl deliver s [] = s\<lparr>progress := progress s, status := status s, progressLog := progressLog s @ []\<rparr>"
    by simp
  then show ?case by blast
next
  case (snoc e es)
  then obtain p st pl where a: "foldl deliver s es = s\<lparr>progress := p, status := st, progressLog := progressLog s @ pl\<rparr>"
    by blast
  obtain p' st' pl' where b: "deliver (foldl deliver s es) e
      = (foldl deliver s es)\<lparr>progress := p', status := st', progressLog := progressLog (foldl deliver s es) @ pl'\<rparr>"
    using deliver_shape by blast
  have "foldl deliver s (es @ [e]) = s\<lparr>progress := p', status := st', progressLog := progressLog s @ (pl @ pl')\<rparr>"
    by (simp add: b) (simp add: a)
  then show ?case by blast
qed

lemma events_frame:
  shows "urlLog (foldl deliver s es) = urlLog s"
    and "nextUrl (foldl deliver s es) = nextUrl s"
    and "inputUrl (foldl deliver s es) = inputUrl s"
    and "outputUrl (foldl deliver s es) = outputUrl s"
    and "effectUrls (foldl deliver s es) = effectUrls s"
    and "engineCalls (foldl deliver s es) = engineCalls s"
    and "processing (foldl deliver s es) = processing s"
proof -
  obtain p st pl where "foldl deliver s es = s\<lparr>progress := p, status := st, progressLog := progressLog s @ pl\<rparr>"
    using events_shape by blast
  then show "urlLog (foldl deliver s es) = urlLog s"
    and "nextUrl (foldl deliver s es) = nextUrl s"
    and "inputUrl (foldl deliver s es) = inputUrl s"
    and "outputUrl (foldl deliver s es) = outputUrl s"
    and "effectUrls (foldl deliver s es) = effectUrls s"
    and "engineCalls (foldl deliver s es) = engineCalls s"
    and "processing (foldl deliver s es) = processing s"
    by simp_all
qed

lemma try_block_fail:
  assumes "file_size f \<le> maxBytes" and "first_rejection eng = Some e"
  shows "fst (try_block eng f s) = Some e"
    and "urlLog (snd (try_block eng f s)) = urlLog s"
    and "nextUrl (snd (try_block eng f s)) = nextUrl s"
    and "inputUrl (snd (try_block eng f s)) = inputUrl s"
    and "outputUrl (snd (try_block eng f s)) = outputUrl s"
    and "effectUrls (snd (try_block eng f s)) = effectUrls s"
  using assms
  by (auto simp: try_block_def first_rejection_def call_engine_def events_frame Let_def
      split: sum.splits option.splits prod.splits)

lemma try_block_ok:
  assumes "file_size f \<le> maxBytes" and "first_rejection eng = None"
  shows "fst (try_block eng f s) = None"
    and "urlLog (snd (try_block eng f s)) = urlLog s @ [Create OutputUrl (nextUrl s)]"
    and "nextUrl (snd (try_block eng f s)) = Suc (nextUrl s)"
    and "inputUrl (snd (try_block eng f s)) = inputUrl s"
    and "outputUrl (snd (try_block eng f s)) = Some (nextUrl s)"
    and "effectUrls (snd (try_block eng f s)) = effectUrls s"
    and "status (snd (try_block eng f s)) = ''Done''"
  using assms
  by (auto simp: try_block_def first_rejection_def call_engine_def events_frame Let_def createObjectURL_def
      split: sum.splits option.splits prod.splits)

lemma upscale_skip: "\<not> ffmpeg s \<or> file s = None \<Longrightarrow> upscale eng s = s"
  by (auto simp: upscale_def split: option.splits)

lemma upscale_too_large:
  assumes "ffmpeg s" and "file s = Some f" and "maxBytes < file_size f"
  shows "upscale eng s = s\<lparr>progress := 0, progressLog := progressLog s @ [0],
           status := ''File too large. Please use a file under 300MB.'', processing := False\<rparr>"
  using assms
  by (simp add: upscale_def try_block_def setProgress_def too_large_def err_text_def)

lemma upscale_fail:
  assumes "ffmpeg s" and "file s = Some f" and "file_size f \<le> maxBytes"
    and "first_rejection eng = Some e"
  shows "status (upscale eng s) = err_text e"
    and "\<not> processing (upscale eng s)"
    and "urlLog (upscale eng s) = urlLog s"
    and "nextUrl (upscale eng s) = nextUrl s"
    and "inputUrl (upscale eng s) = inputUrl s"
    and "outputUrl (upscale eng s) = outputUrl s"
    and "effectUrls (upscale eng s) = effectUrls s"
  using assms try_block_fail [OF assms(3,4), of "(setProgress 0 (s\<lparr>processing := True\<rparr>))\<lparr>status := ''Preparing...''\<rparr>"]
  by (auto simp: upscale_def setProgress_def split: prod.splits)

lemma upscale_ok:
  assumes "succeeds eng s"
  shows "status (upscale eng s) = ''Done''"
    and "\<not> processing (upscale eng s)"
    and "urlLog (upscale eng s) = urlLog s @ [Create OutputUrl (nextUrl s)]"
    and "nextUrl (upscale eng s) = Suc (nextUrl s)"
    and "inputUrl (upscale eng s) = inputUrl s"
    and "outputUrl (upscale eng s) = Some (nextUrl s)"
    and "effectUrls (upscale eng s) = effectUrls s"
proof -
  from assms obtain f where f: "ffmpeg s" "file s = Some f" "file_size f \<le> maxBytes"
    "first_rejection eng = None"
    by (auto simp: succeeds_def split: option.splits)
  note tb = try_block_ok [OF f(3,4), of "(setProgress 0 (s\<lparr>processing := True\<rparr>))\<lparr>status := ''Preparing...''\<rparr>"]
  show "status (upscale eng s) = ''Done''"
    and "\<not> processing (upscale eng s)"
    and "urlLog (upscale eng s) = urlLog s @ [Create OutputUrl (nextUrl s)]"
    and "nextUrl (upscale eng s) = Suc (nextUrl s)"
    and "inputUrl (upscale eng s) = inputUrl s"
    and "outputUrl (upscale eng s) = Some (nextUrl s)"
    and "effectUrls (upscale eng s) = effectUrls s"
    using f tb by (auto simp: upscale_def setProgress_def split: prod.splits)
qed

lemma upscale_not_ok:
  assumes "\<not> succeeds eng s"
  shows "urlLog (upscale eng s) = urlLog s \<and> nextUrl (upscale eng s) = nextUrl s \<and>
    inputUrl (upscale eng s) = inputUrl s \<and> outputUrl (upscale eng s) = outputUrl s \<and>
    effectUrls (upscale eng s) = effectUrls s"
proof (cases "\<not> ffmpeg s \<or> file s = None")
  case True
  then show ?thesis by (simp add: upscale_skip)
next
  case False
  then obtain f where f: "ffmpeg s" "file s = Some f" by auto
  show ?thesis
  proof (cases "maxBytes < file_size f")
    case True
    then show ?thesis by (simp add: upscale_too_large [OF f])
  next
    case False
    then have le: "file_size f \<le> maxBytes" by simp
    with assms f obtain e where "first_rejection eng = Some e"
      by (auto simp: succeeds_def)
    then show ?thesis by (simp add: upscale_fail [OF f le])
  qed
qed

section \<open>Starting a run\<close>

lemma rerender_calls: "engineCalls (rerender s) = engineCalls s"
  by (simp add: rerender_def cleanup_def revokeObjectURL_def split: option.splits)

text \<open>
  Claim C1, as the code has it. \<open>upscale\<close> returns at once, leaving the state as it
  was, when the engine is not loaded or no file is selected (line 101). It does not
  look at \<open>processing\<close>: a run that is already active is kept from starting again by
  the start button, which is disabled then (line 151), so that the click changes
  nothing. A file over 300 MiB is not turned away silently: the run begins and the
  size guard ends it (lines 108--111). In none of the four cases the engine is called.
\<close>

theorem start_rejected:
  "(\<not> ffmpeg s \<or> file s = None \<longrightarrow> upscale eng s = s)
   \<and> (\<not> ffmpeg s \<or> file s = None \<or> processing s \<longrightarrow> perform s (ClickStart eng) = s)
   \<and> (\<forall>f. file s = Some f \<and> maxBytes < file_size f \<longrightarrow>
         engineCalls (upscale eng s) = engineCalls s
         \<and> engineCalls (perform s (ClickStart eng)) = engineCalls s)"
proof -
  have a: "\<not> ffmpeg s \<or> file s = None \<longrightarrow> upscale eng s = s"
    using upscale_skip by blast
  have b: "\<not> ffmpeg s \<or> file s = None \<or> processing s \<longrightarrow> perform s (ClickStart eng) = s"
    by (auto simp: disabled_def)
  have c: "engineCalls (upscale eng s) = engineCalls s"
    if "file s = Some f" "maxBytes < file_size f" for f
  proof (cases "ffmpeg s")
    case True
    then show ?thesis by (simp add: upscale_too_large [OF True that])
  next
    case False
    then show ?thesis by (simp add: upscale_skip)
  qed
  have d: "engineCalls (perform s (ClickStart eng)) = engineCalls s"
    if "file s = Some f" "maxBytes < file_size f" for f
    using c [OF that] by (simp add: rerender_calls)
  from a b c d show ?thesis by blast
qed

theorem start_rejected_witness:
  "\<not> ffmpeg (perform initial (SelectFile (Some clip)))
   \<and> perform (perform initial (SelectFile (Some clip))) (ClickStart smooth)
       = perform initial (SelectFile (Some clip))
   \<and> file loaded = None
   \<and> upscale smooth loaded = loaded
   \<and> perform loaded (ClickStart smooth) = loaded
   \<and> processing ((perform loaded (SelectFile (Some clip)))\<lparr>processing := True\<rparr>)
   \<and> perform ((perform loaded (SelectFile (Some clip)))\<lparr>processing := True\<rparr>) (ClickStart smooth)
       = (perform loaded (SelectFile (Some clip)))\<lparr>processing := True\<rparr>
   \<and> file (perform loaded (SelectFile (Some huge))) = Some huge
   \<and> maxBytes < file_size huge
   \<and> engineCalls (perform (perform loaded (SelectFile (Some huge))) (ClickStart smooth)) = []"
  using start_rejected [of "perform initial (SelectFile (Some clip))" smooth]
    start_rejected [of loaded smooth]
    start_rejected [of "(perform loaded (SelectFile (Some clip)))\<lparr>processing := True\<rparr>" smooth]
    start_rejected [of "perform loaded (SelectFile (Some huge))" smooth]
  by (simp add: run_defs)

text \<open>
  The claim as it is written calls the oversize case an immediate no-op too. It is
  not: with the engine loaded and \<open>huge.mp4\<close> selected, pressing the start button
  changes the state (the status line now shows the size-limit message).
\<close>

theorem start_oversize_not_noop:
  "maxBytes < file_size huge
   \<and> file (perform loaded (SelectFile (Some huge))) = Some huge
   \<and> perform (perform loaded (SelectFile (Some huge))) (ClickStart smooth)
       \<noteq> perform loaded (SelectFile (Some huge))"
proof -
  have "status (perform (perform loaded (SelectFile (Some huge))) (ClickStart smooth))
      = ''File too large. Please use a file under 300MB.''"
    by (simp add: run_defs)
  moreover have "status (perform loaded (SelectFile (Some huge))) = []"
    by (simp add: run_defs)
  ultimately have "perform (perform loaded (SelectFile (Some huge))) (ClickStart smooth)
       \<noteq> perform loaded (SelectFile (Some huge))"
    by auto
  then show ?thesis by (simp add: run_defs)
qed

text \<open>
  Claim C2: when the selected file is larger than \<open>maxBytes\<close> (300 MiB), a run ends at
  the size guard. The status text is the size-limit message, the engine's call log and
  the object-URL log are as they were, no output handle is set, the running flag is
  cleared, and the outcome does not depend on what the engine would have done: nothing
  was awaited.
\<close>

theorem oversize_fails_before_engine:
  assumes "ffmpeg s" and "file s = Some f" and "maxBytes < file_size f"
  shows "status (upscale eng s) = ''File too large. Please use a file under 300MB.''
    \<and> engineCalls (upscale eng s) = engineCalls s
    \<and> outputUrl (upscale eng s) = outputUrl s
    \<and> urlLog (upscale eng s) = urlLog s
    \<and> \<not> processing (upscale eng s)
    \<and> upscale eng s = upscale eng' s"
  by (simp add: upscale_too_large [OF assms])

theorem oversize_fails_before_engine_witness:
  "ffmpeg (perform loaded (SelectFile (Some huge)))
   \<and> file (perform loaded (SelectFile (Some huge))) = Some huge
   \<and> maxBytes < file_size huge
   \<and> status (upscale smooth (perform loaded (SelectFile (Some huge))))
       = ''File too large. Please use a file under 300MB.''
   \<and> engineCalls (upscale smooth (perform loaded (SelectFile (Some huge)))) = []
   \<and> outputUrl (upscale smooth (perform loaded (SelectFile (Some huge)))) = None
   \<and> urlLog (upscale smooth (perform loaded (SelectFile (Some huge)))) = [Create InputUrl 0]"
  using oversize_fails_before_engine [of "perform loaded (SelectFile (Some huge))" huge smooth smooth]
  by (simp add: run_defs)

text \<open>
  Claim C7: when \<open>fetchFile\<close>/\<open>writeFile\<close>, \<open>exec\<close> or \<open>readFile\<close> rejects with \<open>e\<close>, the
  run stops with the status text set to \<open>e\<close>'s message, or to \<open>Upscaling failed\<close>
  when \<open>e\<close> has no message (or an empty one); the running flag is cleared, the output
  handle is the one from before the run and no object URL has been created.
\<close>

theorem failure_reported:
  assumes "ffmpeg s" and "file s = Some f" and "file_size f \<le> maxBytes"
    and "first_rejection eng = Some e"
  shows "status (upscale eng s)
           = (case message e of
                Some m \<Rightarrow> (if m = [] then ''Upscaling failed'' else m)
              | None \<Rightarrow> ''Upscaling failed'')
    \<and> \<not> processing (upscale eng s)
    \<and> outputUrl (upscale eng s) = outputUrl s
    \<and> urlLog (upscale eng s) = urlLog s
    \<and> nextUrl (upscale eng s) = nextUrl s"
  using upscale_fail [OF assms] by (simp add: err_text_def)

theorem failure_reported_witness:
  "ffmpeg (perform loaded (SelectFile (Some clip)))
   \<and> file (perform loaded (SelectFile (Some clip))) = Some clip
   \<and> file_size clip \<le> maxBytes
   \<and> first_rejection (smooth\<lparr>exec_result := Some (Error (Some ''Aborted(OOM)''))\<rparr>)
       = Some (Error (Some ''Aborted(OOM)''))
   \<and> status (upscale (smooth\<lparr>exec_result := Some (Error (Some ''Aborted(OOM)''))\<rparr>)
         (perform loaded (SelectFile (Some clip)))) = ''Aborted(OOM)''
   \<and> first_rejection (smooth\<lparr>readFile_result := Inl (Error None)\<rparr>) = Some (Error None)
   \<and> status (upscale (smooth\<lparr>readFile_result := Inl (Error None)\<rparr>)
         (perform loaded (SelectFile (Some clip)))) = ''Upscaling failed''
   \<and> outputUrl (upscale (smooth\<lparr>readFile_result := Inl (Error None)\<rparr>)
         (perform loaded (SelectFile (Some clip)))) = None"
  using failure_reported [of "perform loaded (SelectFile (Some clip))" clip
      "smooth\<lparr>exec_result := Some (Error (Some ''Aborted(OOM)''))\<rparr>" "Error (Some ''Aborted(OOM)'')"]
    failure_reported [of "perform loaded (SelectFile (Some clip))" clip
      "smooth\<lparr>readFile_result := Inl (Error None)\<rparr>" "Error None"]
  by (simp add: run_defs first_rejection_def)

section \<open>Object URLs\<close>

lemma live_Nil [simp]: "live k [] = {}"
  by (simp add: live_def)

lemma live_snoc [simp]: "live k (ops @ [x]) = step_live k (live k ops) x"
  by (simp add: live_def)

lemma live_append: "live k (xs @ ys) = foldl (step_live k) (live k xs) ys"
  by (simp add: live_def)

lemma never_two_from_append:
  "never_two_from k L (xs @ ys)
     = (never_two_from k L xs \<and> never_two_from k (foldl (step_live k) L xs) ys)"
  by (induction xs arbitrary: L) (auto, (cases ys; simp)+)

lemma never_two_append:
  "never_two k (xs @ ys) = (never_two k xs \<and> never_two_from k (live k xs) ys)"
  by (simp add: never_two_def never_two_from_append live_def)

lemma never_two_from_prefix:
  "never_two_from k L ops = (\<forall>p. prefix p ops \<longrightarrow> at_most_one (foldl (step_live k) L p))"
proof (induction ops arbitrary: L)
  case Nil
  then show ?case by simp
next
  case (Cons x xs)
  show ?case
    by (auto simp: Cons.IH prefix_Cons)
qed

lemma never_two_prefix:
  "never_two k ops = (\<forall>p. prefix p ops \<longrightarrow> at_most_one (live k p))"
  by (simp add: never_two_def never_two_from_prefix live_def)

lemma at_most_one_small [simp]: "at_most_one {}" "at_most_one {u}"
  by (auto simp: at_most_one_def)

lemma handleFile_urls:
  "urlLog (handleFile f s)
     = urlLog s @ (case inputUrl s of Some u \<Rightarrow> [Revoke u] | None \<Rightarrow> [])
         @ (case f of Some x \<Rightarrow> [Create InputUrl (nextUrl s)] | None \<Rightarrow> [])"
  "inputUrl (handleFile f s) = (case f of Some x \<Rightarrow> Some (nextUrl s) | None \<Rightarrow> None)"
  "outputUrl (handleFile f s) = None"
  "nextUrl (handleFile f s) = (case f of Some x \<Rightarrow> Suc (nextUrl s) | None \<Rightarrow> nextUrl s)"
  "effectUrls (handleFile f s) = effectUrls s"
  by (simp_all add: handleFile_def setProgress_def revokeObjectURL_def createObjectURL_def
      Let_def split: option.splits)

lemma rerender_urls:
  "urlLog (rerender t)
     = (if effectUrls t = (inputUrl t, outputUrl t) then urlLog t
        else urlLog t @ (case fst (effectUrls t) of Some u \<Rightarrow> [Revoke u] | None \<Rightarrow> [])
               @ (case snd (effectUrls t) of Some u \<Rightarrow> [Revoke u] | None \<Rightarrow> []))"
  "inputUrl (rerender t) = inputUrl t"
  "outputUrl (rerender t) = outputUrl t"
  "nextUrl (rerender t) = nextUrl t"
  "effectUrls (rerender t) = (inputUrl t, outputUrl t)"
  by (auto simp: rerender_def cleanup_def revokeObjectURL_def split: option.splits)

lemma steady_select:
  assumes "settled s" and "never_two InputUrl (urlLog s)"
  shows "settled (perform s (SelectFile f)) \<and> never_two InputUrl (urlLog (perform s (SelectFile f)))"
  using assms
  by (cases "inputUrl s"; cases "outputUrl s"; cases f)
     (auto simp: settled_def handleFile_urls rerender_urls never_two_append
        live_append at_most_one_def)

lemma settled_rerender_same:
  assumes "settled s" and "urlLog t = urlLog s" and "inputUrl t = inputUrl s"
    and "outputUrl t = outputUrl s" and "effectUrls t = effectUrls s" and "nextUrl t = nextUrl s"
  shows "urlLog (rerender t) = urlLog s" and "settled (rerender t)"
  using assms by (auto simp: settled_def rerender_urls)

lemma run_then_render:
  assumes "settled s" and "succeeds eng s"
  shows "urlLog (rerender (upscale eng s))
           = urlLog s @ [Create OutputUrl (nextUrl s)]
               @ (case inputUrl s of Some u \<Rightarrow> [Revoke u] | None \<Rightarrow> [])
               @ (case outputUrl s of Some u \<Rightarrow> [Revoke u] | None \<Rightarrow> [])"
    and "outputUrl (rerender (upscale eng s)) = Some (nextUrl s)"
    and "inputUrl (rerender (upscale eng s)) = inputUrl s"
    and "nextUrl (rerender (upscale eng s)) = Suc (nextUrl s)"
    and "effectUrls (rerender (upscale eng s)) = (inputUrl s, Some (nextUrl s))"
  using assms(1) upscale_ok [OF assms(2)]
  by (auto simp: settled_def rerender_urls)

lemma steady_start:
  assumes "settled s" and "never_two InputUrl (urlLog s)"
  shows "settled (perform s (ClickStart eng)) \<and> never_two InputUrl (urlLog (perform s (ClickStart eng)))"
proof (cases "disabled s")
  case True
  with assms show ?thesis by simp
next
  case False
  show ?thesis
  proof (cases "succeeds eng s")
    case True
    note r = run_then_render [OF assms(1) True]
    from assms have "settled (rerender (upscale eng s))
        \<and> never_two InputUrl (urlLog (rerender (upscale eng s)))"
      by (cases "inputUrl s"; cases "outputUrl s")
         (auto simp: settled_def r never_two_append live_append at_most_one_def)
    with False show ?thesis by simp
  next
    case no: False
    from upscale_not_ok [OF no] settled_rerender_same [OF assms(1), of "upscale eng s"]
    have "urlLog (rerender (upscale eng s)) = urlLog s" "settled (rerender (upscale eng s))"
      by simp_all
    with assms False show ?thesis by simp
  qed
qed

lemma steady_perform:
  assumes "settled s" and "never_two InputUrl (urlLog s)"
  shows "settled (perform s ev) \<and> never_two InputUrl (urlLog (perform s ev))"
proof (cases ev)
  case (SelectFile f)
  with steady_select [OF assms] show ?thesis by simp
next
  case (ClickStart eng)
  with steady_start [OF assms] show ?thesis by simp
qed (use assms in \<open>simp_all add: settled_def\<close>)

lemma steady_session:
  assumes "settled s" and "never_two InputUrl (urlLog s)"
  shows "settled (session s evs) \<and> never_two InputUrl (urlLog (session s evs))"
  using assms
proof (induction evs rule: rev_induct)
  case Nil
  then show ?case by (simp add: session_def)
next
  case (snoc ev evs)
  then have "settled (session s evs)" "never_two InputUrl (urlLog (session s evs))"
    by simp_all
  from steady_perform [OF this, of ev] show ?case
    by (simp add: session_def)
qed

lemma unmount_releases:
  assumes "settled s"
  shows "live k (urlLog (unmount s)) = {}"
proof -
  from assms have "live k (urlLog s) \<subseteq> set_option (inputUrl s) \<union> set_option (outputUrl s)"
    by (cases k) (auto simp: settled_def)
  with assms show ?thesis
    by (cases "inputUrl s"; cases "outputUrl s")
       (auto simp: settled_def unmount_def cleanup_def revokeObjectURL_def live_append)
qed

lemma settled_at_most_one:
  "settled s \<Longrightarrow> at_most_one (live InputUrl (urlLog s)) \<and> at_most_one (live OutputUrl (urlLog s))"
  by (cases "inputUrl s"; cases "outputUrl s") (auto simp: settled_def at_most_one_def)

text \<open>Two sessions, worked out.\<close>

lemma demo_log:
  "urlLog (session loaded [SelectFile (Some clip), ClickStart smooth, SelectFile (Some clip),
         ClickStart smooth, ClickStart smooth])
       = [Create InputUrl 0, Create OutputUrl 1, Revoke 0, Revoke 0, Create InputUrl 2, Revoke 0, Revoke 1,
          Create OutputUrl 3, Revoke 2, Create OutputUrl 4, Revoke 2, Revoke 3]"
  by (simp add: run_defs)

lemma demo_once:
  "urlLog (session loaded [SelectFile (Some clip), ClickStart smooth])
     = [Create InputUrl 0, Create OutputUrl 1, Revoke 0]"
  "inputUrl (session loaded [SelectFile (Some clip), ClickStart smooth]) = Some 0"
  "outputUrl (session loaded [SelectFile (Some clip), ClickStart smooth]) = Some 1"
  "effectUrls (session loaded [SelectFile (Some clip), ClickStart smooth]) = (Some 0, Some 1)"
  "nextUrl (session loaded [SelectFile (Some clip), ClickStart smooth]) = 2"
  "ffmpeg (session loaded [SelectFile (Some clip), ClickStart smooth])"
  "file (session loaded [SelectFile (Some clip), ClickStart smooth]) = Some clip"
  by (simp_all add: run_defs)

text \<open>
  Claim C3, as the code has it. Start from a state in which every live handle is the
  one the page refers to, and let the user do anything, any number of times. At no
  moment of the session are two input display handles live: \<open>handleFile\<close> revokes
  the previous one (if there is one) and only then creates the next (lines 75--76), so
  the calls it adds to the log are that one revocation followed by that one creation.
  The output handle is handled the other way round: \<open>upscale\<close> creates the new handle
  first (line 140) and the previous one is revoked afterwards, by the cleanup of the
  effect (lines 63--68), when React renders the change. So at most one output handle
  is live once a step is over, not at every moment.
\<close>

theorem handles_over_a_session:
  assumes "settled s" and "never_two InputUrl (urlLog s)"
  shows "never_two InputUrl (urlLog (session s evs))
    \<and> (\<forall>p. prefix p (urlLog (session s evs)) \<longrightarrow> at_most_one (live InputUrl p))
    \<and> at_most_one (live OutputUrl (urlLog (session s evs)))
    \<and> urlLog (handleFile f s)
        = urlLog s @ (case inputUrl s of Some u \<Rightarrow> [Revoke u] | None \<Rightarrow> [])
            @ (case f of Some x \<Rightarrow> [Create InputUrl (nextUrl s)] | None \<Rightarrow> [])"
proof -
  from steady_session [OF assms, of evs]
  have a: "settled (session s evs)" and b: "never_two InputUrl (urlLog (session s evs))"
    by simp_all
  from b have c: "\<forall>p. prefix p (urlLog (session s evs)) \<longrightarrow> at_most_one (live InputUrl p)"
    by (simp add: never_two_prefix)
  from a have d: "at_most_one (live OutputUrl (urlLog (session s evs)))"
    by (simp add: settled_at_most_one)
  from b c d handleFile_urls(1) [of f s] show ?thesis by blast
qed

theorem handles_over_a_session_witness:
  "settled loaded \<and> never_two InputUrl (urlLog loaded)
   \<and> urlLog (session loaded [SelectFile (Some clip), ClickStart smooth, SelectFile (Some clip),
         ClickStart smooth, ClickStart smooth])
       = [Create InputUrl 0, Create OutputUrl 1, Revoke 0, Revoke 0, Create InputUrl 2, Revoke 0, Revoke 1,
          Create OutputUrl 3, Revoke 2, Create OutputUrl 4, Revoke 2, Revoke 3]
   \<and> never_two InputUrl (urlLog (session loaded [SelectFile (Some clip), ClickStart smooth,
         SelectFile (Some clip), ClickStart smooth, ClickStart smooth]))
   \<and> at_most_one (live OutputUrl (urlLog (session loaded [SelectFile (Some clip), ClickStart smooth,
         SelectFile (Some clip), ClickStart smooth, ClickStart smooth])))"
proof -
  have h1: "settled loaded"
    by (simp add: settled_def loaded_def initial_def live_def)
  have h2: "never_two InputUrl (urlLog loaded)"
    by (simp add: never_two_def loaded_def initial_def at_most_one_def)
  note t = handles_over_a_session [OF h1 h2, of "[SelectFile (Some clip), ClickStart smooth,
         SelectFile (Some clip), ClickStart smooth, ClickStart smooth]" None]
  from h1 h2 demo_log t show ?thesis by blast
qed

text \<open>
  The claim as it is written has the output handle released before the next one is
  created, and never two of them live. Select \<open>clip.mp4\<close> and run twice: the fourth
  call to the object-URL store creates the second output handle while the first is
  still live; its revocation is the sixth call.
\<close>

theorem two_output_handles_live:
  "take 4 (urlLog (session loaded [SelectFile (Some clip), ClickStart smooth, ClickStart smooth]))
     = [Create InputUrl 0, Create OutputUrl 1, Revoke 0, Create OutputUrl 2]
   \<and> live OutputUrl (take 4 (urlLog (session loaded
          [SelectFile (Some clip), ClickStart smooth, ClickStart smooth]))) = {1, 2}
   \<and> \<not> never_two OutputUrl (urlLog (session loaded
          [SelectFile (Some clip), ClickStart smooth, ClickStart smooth]))"
  by (auto simp: run_defs never_two_def live_def at_most_one_def)

text \<open>
  Claim C6, as the code has it. A run creates an output handle only when it succeeds.
  When a successful run completes, the new handle has been created and is the one in
  \<open>outputUrl\<close>, but the run itself revokes nothing: an output handle that was live
  before is still live. It is revoked by the effect's cleanup when React renders the
  change (the cleanup revokes the input handle of the previous render along with it);
  after that render the new handle is the only live output handle. A run that is
  turned away or fails leaves the object-URL log and \<open>outputUrl\<close> as they were.
\<close>

theorem output_handle_after_run:
  assumes "settled s"
  shows "(succeeds eng s \<longrightarrow>
            urlLog (upscale eng s) = urlLog s @ [Create OutputUrl (nextUrl s)]
            \<and> outputUrl (upscale eng s) = Some (nextUrl s)
            \<and> live OutputUrl (urlLog (upscale eng s))
                = insert (nextUrl s) (live OutputUrl (urlLog s))
            \<and> urlLog (rerender (upscale eng s))
                = urlLog s @ [Create OutputUrl (nextUrl s)]
                    @ (case inputUrl s of Some u \<Rightarrow> [Revoke u] | None \<Rightarrow> [])
                    @ (case outputUrl s of Some u \<Rightarrow> [Revoke u] | None \<Rightarrow> [])
            \<and> outputUrl (rerender (upscale eng s)) = Some (nextUrl s)
            \<and> live OutputUrl (urlLog (rerender (upscale eng s))) = {nextUrl s}
            \<and> (\<forall>u\<in>live OutputUrl (urlLog s). u \<notin> live OutputUrl (urlLog (rerender (upscale eng s)))))
       \<and> (\<not> succeeds eng s \<longrightarrow>
            urlLog (upscale eng s) = urlLog s
            \<and> outputUrl (upscale eng s) = outputUrl s
            \<and> urlLog (rerender (upscale eng s)) = urlLog s
            \<and> outputUrl (rerender (upscale eng s)) = outputUrl s)"
proof (cases "succeeds eng s")
  case True
  note r = run_then_render [OF assms True]
  note u = upscale_ok [OF True]
  have "live OutputUrl (urlLog (upscale eng s)) = insert (nextUrl s) (live OutputUrl (urlLog s))"
    by (simp add: u(3))
  moreover from assms have "live OutputUrl (urlLog (rerender (upscale eng s))) = {nextUrl s}"
    by (cases "inputUrl s"; cases "outputUrl s") (auto simp: settled_def r live_append)
  moreover from assms have "\<forall>u\<in>live OutputUrl (urlLog s). u \<noteq> nextUrl s"
    by (cases "outputUrl s") (auto simp: settled_def)
  ultimately show ?thesis using True r(1,2) u(3,6) by simp
next
  case False
  from upscale_not_ok [OF False] settled_rerender_same(1) [OF assms, of "upscale eng s"]
  show ?thesis using False by (simp add: rerender_urls)
qed

theorem output_handle_after_run_witness:
  "settled (session loaded [SelectFile (Some clip), ClickStart smooth])
   \<and> outputUrl (session loaded [SelectFile (Some clip), ClickStart smooth]) = Some 1
   \<and> live OutputUrl (urlLog (session loaded [SelectFile (Some clip), ClickStart smooth])) = {1}
   \<and> succeeds smooth (session loaded [SelectFile (Some clip), ClickStart smooth])
   \<and> live OutputUrl (urlLog (rerender (upscale smooth
         (session loaded [SelectFile (Some clip), ClickStart smooth])))) = {2}
   \<and> \<not> succeeds (smooth\<lparr>exec_result := Some (Error None)\<rparr>)
         (session loaded [SelectFile (Some clip), ClickStart smooth])
   \<and> urlLog (rerender (upscale (smooth\<lparr>exec_result := Some (Error None)\<rparr>)
         (session loaded [SelectFile (Some clip), ClickStart smooth])))
       = [Create InputUrl 0, Create OutputUrl 1, Revoke 0]"
proof -
  have h: "settled (session loaded [SelectFile (Some clip), ClickStart smooth])"
    by (simp add: settled_def demo_once live_def)
  have ok: "succeeds smooth (session loaded [SelectFile (Some clip), ClickStart smooth])"
    by (simp add: succeeds_def demo_once)
       (simp add: first_rejection_def smooth_def clip_def maxBytes_def)
  have no: "\<not> succeeds (smooth\<lparr>exec_result := Some (Error None)\<rparr>)
         (session loaded [SelectFile (Some clip), ClickStart smooth])"
    by (simp add: succeeds_def first_rejection_def smooth_def)
  have l: "live OutputUrl (urlLog (session loaded [SelectFile (Some clip), ClickStart smooth])) = {1}"
    by (simp add: demo_once live_def)
  from output_handle_after_run [OF h, of smooth] ok
  have "live OutputUrl (urlLog (rerender (upscale smooth
         (session loaded [SelectFile (Some clip), ClickStart smooth]))))
       = {nextUrl (session loaded [SelectFile (Some clip), ClickStart smooth])}"
    by blast
  then have a: "live OutputUrl (urlLog (rerender (upscale smooth
         (session loaded [SelectFile (Some clip), ClickStart smooth])))) = {2}"
    by (simp add: demo_once(5))
  from output_handle_after_run [OF h, of "smooth\<lparr>exec_result := Some (Error None)\<rparr>"] no
  have "urlLog (rerender (upscale (smooth\<lparr>exec_result := Some (Error None)\<rparr>)
         (session loaded [SelectFile (Some clip), ClickStart smooth])))
       = urlLog (session loaded [SelectFile (Some clip), ClickStart smooth])"
    by blast
  then have b: "urlLog (rerender (upscale (smooth\<lparr>exec_result := Some (Error None)\<rparr>)
         (session loaded [SelectFile (Some clip), ClickStart smooth])))
       = [Create InputUrl 0, Create OutputUrl 1, Revoke 0]"
    by (simp add: demo_once(1))
  from h ok no l a b demo_once(3) show ?thesis by blast
qed

text \<open>
  The claim as it is written has exactly one output handle, and the previous one
  revoked, when the run completes. Select \<open>clip.mp4\<close> and run once: the output
  handle is 1. Run again: when this run has completed (status \<open>Done\<close>, running flag
  cleared) the handles 1 and 2 are both live.
\<close>

theorem two_outputs_at_completion:
  "outputUrl (session loaded [SelectFile (Some clip), ClickStart smooth]) = Some 1
   \<and> succeeds smooth (session loaded [SelectFile (Some clip), ClickStart smooth])
   \<and> status (upscale smooth (session loaded [SelectFile (Some clip), ClickStart smooth])) = ''Done''
   \<and> \<not> processing (upscale smooth (session loaded [SelectFile (Some clip), ClickStart smooth]))
   \<and> live OutputUrl (urlLog (upscale smooth
         (session loaded [SelectFile (Some clip), ClickStart smooth]))) = {1, 2}"
proof -
  have ok: "succeeds smooth (session loaded [SelectFile (Some clip), ClickStart smooth])"
    by (simp add: succeeds_def demo_once)
       (simp add: first_rejection_def smooth_def clip_def maxBytes_def)
  note u = upscale_ok [OF ok]
  have "live OutputUrl (urlLog (upscale smooth
         (session loaded [SelectFile (Some clip), ClickStart smooth]))) = {1, 2}"
    by (auto simp: u(3) demo_once live_def)
  with ok u(1,2) demo_once(3) show ?thesis by simp
qed

section \<open>Progress\<close>

lemma percent_range: "0 \<le> r \<Longrightarrow> r \<le> 1 \<Longrightarrow> 0 \<le> Math_round (r * 100) \<and> Math_round (r * 100) \<le> 100"
  unfolding Math_round_def by (simp add: le_floor_iff floor_le_iff)

lemma percent_mono: "r \<le> r' \<Longrightarrow> Math_round (r * 100) \<le> Math_round (r' * 100)"
  unfolding Math_round_def by (intro floor_mono) simp

lemma percents_sorted:
  assumes "sorted rs" and "\<forall>r\<in>set rs. 0 \<le> r \<and> r \<le> 1"
  shows "sorted (0 # map (\<lambda>r. Math_round (r * 100)) rs)"
    and "\<forall>p\<in>set (0 # map (\<lambda>r. Math_round (r * 100)) rs). 0 \<le> p \<and> p \<le> 100"
proof -
  from assms(1) have "sorted (map (\<lambda>r. Math_round (r * 100)) rs)"
    by (induction rs) (auto simp: percent_mono)
  with assms(2) show "sorted (0 # map (\<lambda>r. Math_round (r * 100)) rs)"
    by (auto simp: percent_range)
  from assms(2) show "\<forall>p\<in>set (0 # map (\<lambda>r. Math_round (r * 100)) rs). 0 \<le> p \<and> p \<le> 100"
    by (auto simp: percent_range)
qed

lemma events_progressLog:
  "progressLog (foldl deliver s es) = progressLog s @ map (\<lambda>r. Math_round (r * 100)) (ratios es)"
  by (induction es arbitrary: s rule: ratios.induct)
     (simp_all add: on_progress_def on_log_def setProgress_def)

lemma shown_cases:
  "shown_during eng s = [] \<or> shown_during eng s = [0]
   \<or> shown_during eng s = 0 # map (\<lambda>r. Math_round (r * 100)) (ratios (exec_events eng))"
  by (auto simp: shown_during_def upscale_def try_block_def setProgress_def call_engine_def
      createObjectURL_def events_progressLog Let_def split: option.splits sum.splits prod.splits)

lemma shown_appended: "progressLog (upscale eng s) = progressLog s @ shown_during eng s"
  by (auto simp: shown_during_def upscale_def try_block_def setProgress_def call_engine_def
      createObjectURL_def events_progressLog Let_def split: option.splits sum.splits prod.splits)

lemma shown_exec:
  assumes "ffmpeg s" and "file s = Some f" and "file_size f \<le> maxBytes"
    and "fetchFile_result eng = Inr b" and "writeFile_result eng = None"
  shows "shown_during eng s = 0 # map (\<lambda>r. Math_round (r * 100)) (ratios (exec_events eng))"
  using assms
  by (auto simp: shown_during_def upscale_def try_block_def setProgress_def call_engine_def
      createObjectURL_def events_progressLog Let_def split: option.splits sum.splits prod.splits)

lemma demo_shown:
  "shown_during smooth (perform loaded (SelectFile (Some clip))) = [0, 25, 50, 100]"
  by (simp add: shown_during_def run_defs Math_round_def)

text \<open>
  Claim C4, as the code has it. The progress listener sets the percentage to
  \<open>Math.round(r * 100)\<close> and does nothing else: there is no clamping. For a ratio
  between 0 and 1 the result is an integer between 0 and 100. During a run
  \<open>setProgress\<close> is given 0 at the start and then the rounded percentage of each
  progress event; when the ratios are between 0 and 1 and do not decrease, these
  values are between 0 and 100 and do not decrease.
\<close>

theorem progress_percentage:
  assumes "sorted (ratios (exec_events eng))"
    and "\<forall>r\<in>set (ratios (exec_events eng)). 0 \<le> r \<and> r \<le> 1"
  shows "progress (on_progress r s) = Math_round (r * 100)
    \<and> (0 \<le> r \<and> r \<le> 1 \<longrightarrow> 0 \<le> progress (on_progress r s) \<and> progress (on_progress r s) \<le> 100)
    \<and> progressLog (upscale eng s) = progressLog s @ shown_during eng s
    \<and> sorted (shown_during eng s)
    \<and> (\<forall>p\<in>set (shown_during eng s). 0 \<le> p \<and> p \<le> 100)
    \<and> (ffmpeg s \<and> (\<exists>f. file s = Some f \<and> file_size f \<le> maxBytes)
          \<and> (\<exists>b. fetchFile_result eng = Inr b) \<and> writeFile_result eng = None
        \<longrightarrow> shown_during eng s = 0 # map (\<lambda>r. Math_round (r * 100)) (ratios (exec_events eng)))"
proof -
  have a: "progress (on_progress r s) = Math_round (r * 100)"
    by (simp add: on_progress_def setProgress_def)
  have b: "0 \<le> r \<and> r \<le> 1 \<longrightarrow> 0 \<le> progress (on_progress r s) \<and> progress (on_progress r s) \<le> 100"
    using percent_range [of r] by (simp add: a)
  note p = percents_sorted [OF assms]
  from shown_cases [of eng s] p(1) have c: "sorted (shown_during eng s)"
    by auto
  from shown_cases [of eng s] p(2) have d: "\<forall>p\<in>set (shown_during eng s). 0 \<le> p \<and> p \<le> 100"
    by auto
  have e: "ffmpeg s \<and> (\<exists>f. file s = Some f \<and> file_size f \<le> maxBytes)
          \<and> (\<exists>b. fetchFile_result eng = Inr b) \<and> writeFile_result eng = None
        \<longrightarrow> shown_during eng s = 0 # map (\<lambda>r. Math_round (r * 100)) (ratios (exec_events eng))"
    using shown_exec by blast
  from a b shown_appended [of eng s] c d e show ?thesis by blast
qed

theorem progress_percentage_witness:
  "ratios (exec_events smooth) = [1 / 4, 1 / 2, 1]
   \<and> sorted (ratios (exec_events smooth))
   \<and> (0::real) \<le> 1 / 4 \<and> (1::real) \<le> 1
   \<and> (0::real) \<le> 1 / 2 \<and> (1::real) / 2 \<le> 1
   \<and> progress (on_progress (1 / 2) loaded) = 50
   \<and> shown_during smooth (perform loaded (SelectFile (Some clip))) = [0, 25, 50, 100]
   \<and> sorted (shown_during smooth (perform loaded (SelectFile (Some clip))))"
proof -
  have h1: "sorted (ratios (exec_events smooth))"
    by (simp add: smooth_def)
  have h2: "\<forall>r\<in>set (ratios (exec_events smooth)). 0 \<le> r \<and> r \<le> 1"
    by (simp add: smooth_def)
  note t = progress_percentage [OF h1 h2, of "1 / 2"]
  from t [of loaded] have "progress (on_progress (1 / 2) loaded) = Math_round (1 / 2 * 100)"
    by blast
  then have a: "progress (on_progress (1 / 2) loaded) = 50"
    by (simp add: Math_round_def)
  from t [of "perform loaded (SelectFile (Some clip))"]
  have b: "sorted (shown_during smooth (perform loaded (SelectFile (Some clip))))"
    by blast
  have h0: "ratios (exec_events smooth) = [1 / 4, 1 / 2, 1]"
    by (simp add: smooth_def)
  from h0 h1 a b demo_shown show ?thesis by simp
qed

text \<open>
  The claim as it is written has the percentage clamped to 0..100 for every ratio. A
  ratio of 1.5 (the engine's estimate can overshoot) sets the percentage to 150.
\<close>

theorem progress_not_clamped:
  "progress (on_progress (3 / 2) loaded) = 150 \<and> \<not> progress (on_progress (3 / 2) loaded) \<le> 100"
  by (simp add: on_progress_def setProgress_def Math_round_def)

section \<open>The arguments of a run\<close>

lemma events_calls: "engineCalls (foldl deliver s es) = engineCalls s"
  by (rule events_frame)

lemma upscale_calls:
  assumes "ffmpeg s" and "file s = Some f" and "file_size f \<le> maxBytes"
    and "fetchFile_result eng = Inr b" and "writeFile_result eng = None"
  shows "prefix (engineCalls s @ [WriteFile ''input'' b,
            Exec (buildArgs (buildScaleFilter (algo s) (scale s) w h) (preset s) (crf s))])
          (engineCalls (upscale eng s))"
  using assms
  by (auto simp: upscale_def try_block_def setProgress_def call_engine_def createObjectURL_def
      events_calls Let_def buildScaleFilter_def
      split: option.splits sum.splits prod.splits ScalePreset.splits)

text \<open>
  Claim C5: with the preset \<open>2x\<close> and the algorithm \<open>bicubic\<close> the filter built for a
  1280 by 720 input is \<open>scale=iw*2:ih*2:flags=bicubic\<close>, which the engine evaluates
  to 2560 by 1440 on that input. Whatever the filter, the speed preset and the quality
  value, the argument list is \<open>-i input -vf\<close>, the filter, and then the fixed encode
  arguments: \<open>-c:v libx264\<close>, \<open>-preset\<close> with the chosen preset, \<open>-crf\<close> with the chosen
  value, \<open>-c:a copy\<close>, \<open>-movflags +faststart\<close> and the output name. A run that gets as
  far as \<open>exec\<close> passes exactly this list, built from the state's settings.
\<close>

theorem translator_arguments:
  assumes "ffmpeg s" and "file s = Some f" and "file_size f \<le> maxBytes"
    and "fetchFile_result eng = Inr b" and "writeFile_result eng = None"
  shows "buildScaleFilter ''bicubic'' P2x 1280 720 = ''scale=iw*2:ih*2:flags=bicubic''
    \<and> buildScaleFilter ''bicubic'' P2x 1280 720
        = ''scale='' @ show_expr (Mul Iw (Num 2)) @ '':'' @ show_expr (Mul Ih (Num 2)) @ '':flags=bicubic''
    \<and> scale_target (Mul Iw (Num 2)) (Mul Ih (Num 2)) 1280 720 = (2560, 1440)
    \<and> buildArgs flt pre q
        = [''-i'', ''input'', ''-vf'', flt, ''-c:v'', ''libx264'', ''-preset'', pre,
           ''-crf'', String_of q, ''-c:a'', ''copy'', ''-movflags'', ''+faststart'', ''output.mp4'']
    \<and> prefix (engineCalls s @ [WriteFile ''input'' b,
           Exec [''-i'', ''input'', ''-vf'', buildScaleFilter (algo s) (scale s) w h,
                 ''-c:v'', ''libx264'', ''-preset'', preset s, ''-crf'', String_of (crf s),
                 ''-c:a'', ''copy'', ''-movflags'', ''+faststart'', ''output.mp4'']])
         (engineCalls (upscale eng s))"
proof -
  have a: "buildScaleFilter ''bicubic'' P2x 1280 720 = ''scale=iw*2:ih*2:flags=bicubic''"
    by (simp add: buildScaleFilter_def)
  have b: "buildScaleFilter ''bicubic'' P2x 1280 720
        = ''scale='' @ show_expr (Mul Iw (Num 2)) @ '':'' @ show_expr (Mul Ih (Num 2)) @ '':flags=bicubic''"
    by (simp add: buildScaleFilter_def show_nat_digit digit_char_def)
  have c: "scale_target (Mul Iw (Num 2)) (Mul Ih (Num 2)) 1280 720 = (2560, 1440)"
    by (simp add: scale_target_def)
  have d: "buildArgs flt pre q
        = [''-i'', ''input'', ''-vf'', flt, ''-c:v'', ''libx264'', ''-preset'', pre,
           ''-crf'', String_of q, ''-c:a'', ''copy'', ''-movflags'', ''+faststart'', ''output.mp4'']"
    by (simp add: buildArgs_def)
  from upscale_calls [OF assms, of w h] a b c d show ?thesis
    by (simp add: buildArgs_def)
qed

theorem translator_arguments_witness:
  "ffmpeg (perform loaded (SelectFile (Some clip)))
   \<and> file (perform loaded (SelectFile (Some clip))) = Some clip
   \<and> file_size clip \<le> maxBytes
   \<and> fetchFile_result smooth = Inr [0, 1, 2] \<and> writeFile_result smooth = None
   \<and> engineCalls (upscale smooth ((perform loaded (SelectFile (Some clip)))
         \<lparr>scale := P2x, algo := ''bicubic'', inputVideo := Some (1280, 720)\<rparr>))
       = [WriteFile ''input'' [0, 1, 2],
          Exec [''-i'', ''input'', ''-vf'', ''scale=iw*2:ih*2:flags=bicubic'',
                ''-c:v'', ''libx264'', ''-preset'', ''medium'', ''-crf'', ''20'',
                ''-c:a'', ''copy'', ''-movflags'', ''+faststart'', ''output.mp4''],
          ReadFile ''output.mp4'']"
  using translator_arguments [of "(perform loaded (SelectFile (Some clip)))
         \<lparr>scale := P2x, algo := ''bicubic'', inputVideo := Some (1280, 720)\<rparr>" clip smooth "[0, 1, 2]"]
  by (simp add: run_defs buildArgs_def buildScaleFilter_def String_of_20)

end
